theory Spec2Isabelle
  imports Main "HOL-Library.Sublist"
begin

section \<open>Data model\<close>

text \<open>
  The enumeration \<open>ActionType\<close> and the dataclass \<open>AutomationStep\<close> of
  \<open>complete_automation.py\<close>. The field \<open>value\<close> of the dataclass is called
  \<open>step_value\<close> here, the other fields keep their names (the field \<open>context\<close> of the
  tool is \<open>browser_context\<close>). Strings are lists of
  characters; the model reads them as ASCII text.
\<close>

datatype ActionType =
  NAVIGATE | CLICK | FILL | WAIT | SCROLL | SCREENSHOT | EXTRACT_TEXT | HOVER

record AutomationStep =
  action :: ActionType
  description :: string
  target :: "string option"
  step_value :: "string option"
  selector :: "string option"
  timeout :: int
  wait_after :: int
  optional :: bool

text \<open>
  The constructor call \<open>AutomationStep(action, description, ...)\<close> with every keyword
  argument at its default: no target, value or selector, a timeout of 15000 ms, a pause
  of 1000 ms, not optional.
\<close>

definition mk_step :: "ActionType \<Rightarrow> string \<Rightarrow> AutomationStep" where
  "mk_step a d =
     \<lparr>action = a, description = d, target = None, step_value = None, selector = None,
      timeout = 15000, wait_after = 1000, optional = False\<rparr>"

text \<open>
  The mutable fields of a \<open>CompleteAutomationTool\<close> object, together with the outside
  world it acts on. Browser resources are named by numbers. \<open>opened\<close> and \<open>closed\<close>
  are the bookkeeping of the model: the resources whose creation returned normally, and
  the resources whose close (or stop) call returned normally, one entry per call.
\<close>

record 'w tool =
  playwright_instance :: "nat option"
  browser :: "nat option"
  browser_context :: "nat option"
  page :: "nat option"
  current_url :: string
  llm :: bool
  opened :: "nat list"
  closed :: "nat list"
  world :: 'w

section \<open>String operations of Python\<close>

text \<open>
  \<open>str.isspace\<close> on ASCII: tab, line feed, vertical tab, form feed, carriage return,
  the four separators \<open>0x1C\<close> to \<open>0x1F\<close> and the space. The same class is used by
  \<open>str.split()\<close>, \<open>str.strip()\<close> and the pattern \<open>\s\<close>.
\<close>

definition is_space :: "char \<Rightarrow> bool" where
  "is_space c =
     (c \<in> set [CHR 0x09, CHR 0x0A, CHR 0x0B, CHR 0x0C, CHR 0x0D,
               CHR 0x1C, CHR 0x1D, CHR 0x1E, CHR 0x1F, CHR 0x20])"

definition is_quote :: "char \<Rightarrow> bool" where
  "is_quote c = (c = CHR 0x22 \<or> c = CHR 0x27)"

definition lower_char :: "char \<Rightarrow> char" where
  "lower_char c =
     (case map_of (zip ''ABCDEFGHIJKLMNOPQRSTUVWXYZ'' ''abcdefghijklmnopqrstuvwxyz'') c of
        Some l \<Rightarrow> l
      | None \<Rightarrow> c)"

definition py_lower :: "string \<Rightarrow> string" where
  "py_lower s = map lower_char s"

definition py_strip :: "string \<Rightarrow> string" where
  "py_strip s = rev (dropWhile is_space (rev (dropWhile is_space s)))"

text \<open>
  \<open>s.split()\<close>: the maximal runs of non-space characters, in order. \<open>cur\<close> is the
  run being read.
\<close>

fun split_acc :: "string \<Rightarrow> string \<Rightarrow> string list" where
  "split_acc cur [] = (if cur = [] then [] else [cur])"
| "split_acc cur (c # cs) =
     (if is_space c then (if cur = [] then split_acc [] cs else cur # split_acc [] cs)
      else split_acc (cur @ [c]) cs)"

definition py_split :: "string \<Rightarrow> string list" where
  "py_split s = split_acc [] s"

fun py_join :: "string \<Rightarrow> string list \<Rightarrow> string" where
  "py_join sep [] = []"
| "py_join sep [w] = w"
| "py_join sep (w # ws) = w @ sep @ py_join sep ws"

section \<open>The search patterns\<close>

text \<open>
  The four patterns of \<open>_extract_search_query\<close> differ in their leading literal only:
  \<^verbatim>\<open>LIT\s+["']?([^"']+?)["']?(?:\s*(?:,|and|then|\.|play|click|$))\<close>.
  The functions below follow the backtracking order of \<open>re.search\<close> on this shape and
  return group 1 of the first match found.

  \<open>alt_ok\<close> is the final alternation; \<open>$\<close> matches at the end of the string and
  before a line feed that ends the string.
\<close>

definition alt_ok :: "string \<Rightarrow> bool" where
  "alt_ok u =
     (prefix '','' u \<or> prefix ''and'' u \<or> prefix ''then'' u \<or> prefix ''.'' u \<or>
      prefix ''play'' u \<or> prefix ''click'' u \<or> u = [] \<or> u = [CHR 0x0A])"

text \<open>\<open>\s*\<close> followed by the alternation: some number of leading spaces is skipped.\<close>

definition tail_ok :: "string \<Rightarrow> bool" where
  "tail_ok t = list_ex (\<lambda>k. alt_ok (drop k t)) [0 ..< Suc (length (takeWhile is_space t))]"

text \<open>The optional closing quote, then the tail.\<close>

definition closing_ok :: "string \<Rightarrow> bool" where
  "closing_ok t =
     (case t of
        [] \<Rightarrow> tail_ok []
      | c # cs \<Rightarrow> if is_quote c then tail_ok cs \<or> tail_ok (c # cs) else tail_ok (c # cs))"

text \<open>
  The lazy group \<open>([^"']+?)\<close>: \<open>acc\<close> is the group read so far (at least one
  character); it grows by one non-quote character at a time until the rest of the pattern
  matches.
\<close>

fun group_from :: "string \<Rightarrow> string \<Rightarrow> string option" where
  "group_from acc [] = (if closing_ok [] then Some acc else None)"
| "group_from acc (c # cs) =
     (if closing_ok (c # cs) then Some acc
      else if is_quote c then None
      else group_from (acc @ [c]) cs)"

definition group_start :: "string \<Rightarrow> string option" where
  "group_start r =
     (case r of
        [] \<Rightarrow> None
      | c # cs \<Rightarrow> if is_quote c then None else group_from [c] cs)"

text \<open>
  The optional opening quote is taken when it is there; the path that leaves it is
  tried next (the group cannot start with a quote, so that path fails).
\<close>

definition after_ws :: "string \<Rightarrow> string option" where
  "after_ws r =
     (case r of
        [] \<Rightarrow> group_start []
      | c # cs \<Rightarrow>
          if is_quote c
          then (case group_start cs of Some g \<Rightarrow> Some g | None \<Rightarrow> group_start (c # cs))
          else group_start (c # cs))"

text \<open>The greedy \<open>\s+\<close>: the longest run of spaces first, then shorter ones, at least one.\<close>

fun try_ws :: "string \<Rightarrow> nat \<Rightarrow> string option" where
  "try_ws rest 0 = None"
| "try_ws rest (Suc k) =
     (case after_ws (drop (Suc k) rest) of
        Some g \<Rightarrow> Some g
      | None \<Rightarrow> try_ws rest k)"

definition match_here :: "string \<Rightarrow> string \<Rightarrow> string option" where
  "match_here lit s =
     (if prefix lit s
      then (let rest = drop (length lit) s
            in try_ws rest (length (takeWhile is_space rest)))
      else None)"

text \<open>\<open>re.search\<close>: the leftmost position at which the pattern matches.\<close>

fun re_search :: "string \<Rightarrow> string \<Rightarrow> string option" where
  "re_search lit [] = match_here lit []"
| "re_search lit (c # cs) =
     (case match_here lit (c # cs) of
        Some g \<Rightarrow> Some g
      | None \<Rightarrow> re_search lit cs)"

definition patterns :: "string list" where
  "patterns = [''search for'', ''find'', ''look for'', ''about'']"

text \<open>The loop over the patterns: the first pattern that matches anywhere decides.\<close>

fun first_match :: "string list \<Rightarrow> string \<Rightarrow> string option" where
  "first_match [] s = None"
| "first_match (lit # lits) s =
     (case re_search lit s of
        Some g \<Rightarrow> Some g
      | None \<Rightarrow> first_match lits s)"

section \<open>The pattern planner\<close>

definition stop_words :: "string list" where
  "stop_words = [''and'', ''then'', ''play'', ''click'', ''first'', ''video'']"

definition skip_words :: "string list" where
  "skip_words =
     [''go'', ''to'', ''navigate'', ''open'', ''visit'', ''search'', ''find'', ''look'',
      ''for'', ''and'', ''then'', ''play'', ''click'', ''first'', ''video'']"

definition extract_search_query :: "'w tool \<Rightarrow> string \<Rightarrow> string" where
  "extract_search_query self instruction =
     (case first_match patterns (py_lower instruction) of
        Some g \<Rightarrow>
          (let query = py_strip g;
               words = filter (\<lambda>w. py_lower w \<notin> set stop_words) (py_split query)
           in py_join '' '' words)
      | None \<Rightarrow>
          (let words = py_split (py_lower instruction);
               meaningful_words =
                 filter (\<lambda>w. w \<notin> set skip_words \<and> \<not> suffix ''.com'' w) words
           in if meaningful_words \<noteq> [] then py_join '' '' (take 5 meaningful_words)
              else ''cats''))"

text \<open>The f-string \<^verbatim>\<open>f"Search for '{search_query}'"\<close>.\<close>

definition search_description :: "string \<Rightarrow> string" where
  "search_description q = ''Search for '' @ [CHR 0x27] @ q @ [CHR 0x27]"

definition create_pattern_plan :: "'w tool \<Rightarrow> string \<Rightarrow> string \<Rightarrow> AutomationStep list" where
  "create_pattern_plan self instruction url =
     (let instruction_lower = py_lower instruction;
          search_query = extract_search_query self instruction
      in
        if sublist ''youtube'' instruction_lower then
          [(mk_step NAVIGATE ''Navigate to YouTube'')\<lparr>target := Some ''https://youtube.com''\<rparr>,
           (mk_step WAIT ''Wait for YouTube to load'')\<lparr>wait_after := 3000\<rparr>,
           (mk_step FILL (search_description search_query))
              \<lparr>target := Some ''search'', step_value := Some search_query\<rparr>,
           (mk_step WAIT ''Wait after typing'')\<lparr>wait_after := 1500\<rparr>,
           (mk_step CLICK ''Submit search'')\<lparr>target := Some ''search_submit'', optional := True\<rparr>]
          @ (if sublist ''play'' instruction_lower \<and> sublist ''first'' instruction_lower
             then [(mk_step WAIT ''Wait for search results'')\<lparr>wait_after := 3000\<rparr>,
                   (mk_step CLICK ''Click first video'')
                      \<lparr>target := Some ''first_video'', optional := True\<rparr>]
             else [])
        else if sublist ''google'' instruction_lower then
          [(mk_step NAVIGATE ''Navigate to Google'')\<lparr>target := Some ''https://google.com''\<rparr>,
           (mk_step WAIT ''Wait for Google to load'')\<lparr>wait_after := 2000\<rparr>,
           (mk_step FILL (search_description search_query))
              \<lparr>target := Some ''search'', step_value := Some search_query\<rparr>,
           (mk_step WAIT ''Wait after typing'')\<lparr>wait_after := 1000\<rparr>]
        else if sublist ''amazon'' instruction_lower then
          [(mk_step NAVIGATE ''Navigate to Amazon'')\<lparr>target := Some ''https://amazon.com''\<rparr>,
           (mk_step WAIT ''Wait for Amazon to load'')\<lparr>wait_after := 2000\<rparr>,
           (mk_step FILL (search_description search_query))
              \<lparr>target := Some ''search'', step_value := Some search_query\<rparr>,
           (mk_step WAIT ''Wait after typing'')\<lparr>wait_after := 1000\<rparr>,
           (mk_step CLICK ''Submit search'')\<lparr>target := Some ''search_submit'', optional := True\<rparr>]
        else if url \<noteq> [] then
          [(mk_step NAVIGATE (''Navigate to '' @ url))\<lparr>target := Some url\<rparr>,
           (mk_step WAIT ''Wait for page to load'')\<lparr>wait_after := 3000\<rparr>]
        else
          [(mk_step NAVIGATE ''Navigate to Google'')\<lparr>target := Some ''https://google.com''\<rparr>,
           (mk_step WAIT ''Wait for page load'')\<lparr>wait_after := 2000\<rparr>,
           (mk_step FILL (search_description search_query))
              \<lparr>target := Some ''search'', step_value := Some search_query\<rparr>])"

section \<open>Exceptions and effects\<close>

text \<open>
  A method that awaits the browser is a function from the state to a result and the new
  state. The result is \<open>Inl e\<close> when the method raises the exception \<open>e\<close> (an instance
  of \<open>Exception\<close>) and \<open>Inr x\<close> when it returns \<open>x\<close>; the state changes made before
  a raise stay. \<open>io_catch\<close> is \<open>try ... except Exception\<close>, \<open>io_finally\<close> is
  \<open>try ... finally\<close>.
\<close>

datatype exn = AttributeError | ValueError | TimeoutError | PlaywrightError string

type_synonym ('s, 'a) io = "'s \<Rightarrow> (exn + 'a) \<times> 's"

definition io_return :: "'a \<Rightarrow> ('s, 'a) io" where
  "io_return x = (\<lambda>s. (Inr x, s))"

definition io_raise :: "exn \<Rightarrow> ('s, 'a) io" where
  "io_raise e = (\<lambda>s. (Inl e, s))"

definition io_bind :: "('s, 'a) io \<Rightarrow> ('a \<Rightarrow> ('s, 'b) io) \<Rightarrow> ('s, 'b) io" where
  "io_bind m f = (\<lambda>s. case m s of (Inl e, s1) \<Rightarrow> (Inl e, s1) | (Inr x, s1) \<Rightarrow> f x s1)"

definition io_catch :: "('s, 'a) io \<Rightarrow> (exn \<Rightarrow> ('s, 'a) io) \<Rightarrow> ('s, 'a) io" where
  "io_catch m h = (\<lambda>s. case m s of (Inl e, s1) \<Rightarrow> h e s1 | (Inr x, s1) \<Rightarrow> (Inr x, s1))"

definition io_finally :: "('s, 'a) io \<Rightarrow> ('s, unit) io \<Rightarrow> ('s, 'a) io" where
  "io_finally m fin =
     (\<lambda>s. case m s of
            (r, s1) \<Rightarrow> (case fin s1 of (Inl e, s2) \<Rightarrow> (Inl e, s2) | (Inr u, s2) \<Rightarrow> (r, s2)))"

text \<open>
  The collaborators of the tool: the Playwright calls the code makes, \<open>asyncio.sleep\<close>
  (in milliseconds), the built-in \<open>int\<close> on strings, and the language-model planner
  \<open>_create_llm_plan\<close>, each acting on the outside world \<open>'w\<close>. A locator is named by its
  selector. What each call does is a parameter of the model.
\<close>

record 'w driver =
  page_goto :: "string \<Rightarrow> ('w, int option) io"
  page_wait_for_load_state :: "('w, unit) io"
  keyboard_press :: "string \<Rightarrow> ('w, unit) io"
  page_wait_for_selector :: "string \<Rightarrow> int \<Rightarrow> ('w, unit) io"
  locator_scroll_into_view_if_needed :: "string \<Rightarrow> ('w, unit) io"
  locator_click :: "string \<Rightarrow> int \<Rightarrow> ('w, unit) io"
  get_by_text_click :: "string \<Rightarrow> int \<Rightarrow> ('w, unit) io"
  locator_focus :: "string \<Rightarrow> ('w, unit) io"
  locator_clear :: "string \<Rightarrow> ('w, unit) io"
  locator_type :: "string \<Rightarrow> string \<Rightarrow> ('w, unit) io"
  locator_input_value :: "string \<Rightarrow> ('w, string) io"
  mouse_wheel :: "int \<Rightarrow> ('w, unit) io"
  page_screenshot :: "('w, unit) io"
  asyncio_sleep :: "int \<Rightarrow> 'w \<Rightarrow> 'w"
  py_int :: "string \<Rightarrow> int option"
  llm_plan :: "string \<Rightarrow> string \<Rightarrow> ('w, AutomationStep list) io"
  start_playwright :: "('w, unit) io"
  chromium_launch :: "nat \<Rightarrow> ('w, unit) io"
  browser_new_context :: "nat \<Rightarrow> ('w, unit) io"
  context_new_page :: "nat \<Rightarrow> ('w, unit) io"
  page_set_default_timeout :: "nat \<Rightarrow> ('w, unit) io"
  page_close :: "nat \<Rightarrow> ('w, unit) io"
  context_close :: "nat \<Rightarrow> ('w, unit) io"
  browser_close :: "nat \<Rightarrow> ('w, unit) io"
  playwright_stop :: "nat \<Rightarrow> ('w, unit) io"

text \<open>A call on the world, run in the state of the tool.\<close>

definition on_world :: "('w, 'a) io \<Rightarrow> ('w tool, 'a) io" where
  "on_world f = (\<lambda>t. case f (world t) of (r, w1) \<Rightarrow> (r, t\<lparr>world := w1\<rparr>))"

definition do_sleep :: "'w driver \<Rightarrow> int \<Rightarrow> ('w tool, unit) io" where
  "do_sleep d ms = (\<lambda>t. (Inr (), t\<lparr>world := asyncio_sleep d ms (world t)\<rparr>))"

section \<open>Selector strategy\<close>

definition get_smart_selectors :: "'w tool \<Rightarrow> string option \<Rightarrow> string \<Rightarrow> string list" where
  "get_smart_selectors self tgt act =
     (case tgt of
        None \<Rightarrow> []
      | Some tg \<Rightarrow>
          if tg = [] then []
          else
            (let target_lower = py_lower tg in
               if act = ''fill'' then
                 (if sublist ''search'' target_lower
                  then [''input[name='search_query']'',
                        ''input[name='q']'', ''textarea[name='q']'', ''#APjFqb'',
                        ''input#twotabsearchtextbox'', ''input[name='field-keywords']'',
                        ''input[type='search']'', ''input[placeholder*='Search']'',
                        ''#search'', ''.search-input'']
                  else [''input[type='text']'', ''input'', ''textarea''])
               else if act = ''click'' then
                 (if sublist ''search'' target_lower \<or> sublist ''submit'' target_lower
                  then [''button#search-icon-legacy'', ''#search-icon-legacy'',
                        ''input[name='btnK']'', ''input[value='Google Search']'',
                        ''input#nav-search-submit-button'',
                        ''button[type='submit']'', ''input[type='submit']'',
                        ''button[aria-label*='Search']'']
                  else if sublist ''video'' target_lower \<or> sublist ''first'' target_lower
                  then [''a#video-title'', ''#contents a#video-title:first-of-type'',
                        ''.ytd-video-renderer a:first-of-type'',
                        ''a[href*='/watch']:first-of-type'',
                        ''a:first-of-type'', ''button:first-of-type'']
                  else [''button'', ''a'', ''input[type='button']''])
               else []))"

section \<open>Step executor\<close>

subsection \<open>Navigate\<close>

definition navigate_url :: "string \<Rightarrow> string" where
  "navigate_url tg = (if prefix ''http'' tg then tg else ''https://'' @ tg)"

text \<open>
  With no target, \<open>url.startswith\<close> raises \<open>AttributeError\<close> inside the \<open>try\<close>.
  The response of \<open>page.goto\<close> is its HTTP status, or \<open>None\<close>.
\<close>

definition navigate_body :: "'w driver \<Rightarrow> AutomationStep \<Rightarrow> ('w tool, bool) io" where
  "navigate_body d step =
     (case target step of
        None \<Rightarrow> io_raise AttributeError
      | Some tg \<Rightarrow>
          io_bind (on_world (page_goto d (navigate_url tg)))
            (\<lambda>response.
               case response of
                 None \<Rightarrow> io_return False
               | Some status \<Rightarrow>
                   if status < 400 then
                     io_bind (\<lambda>t. (Inr (), t\<lparr>current_url := navigate_url tg\<rparr>))
                       (\<lambda>u. io_bind
                               (io_catch (on_world (page_wait_for_load_state d))
                                  (\<lambda>e. do_sleep d 2000))
                               (\<lambda>u. io_return True))
                   else io_return False))"

definition navigate :: "'w driver \<Rightarrow> AutomationStep \<Rightarrow> ('w tool, bool) io" where
  "navigate d step = io_catch (navigate_body d step) (\<lambda>e. io_return False)"

subsection \<open>Click\<close>

definition mentions_enter :: "AutomationStep \<Rightarrow> bool" where
  "mentions_enter step =
     (case target step of
        None \<Rightarrow> False
      | Some tg \<Rightarrow>
          tg \<noteq> [] \<and> list_ex (\<lambda>word. sublist word (py_lower tg)) [''search'', ''submit'', ''enter''])"

text \<open>
  The Enter key, tried when the target mentions a search: \<open>True\<close> when the key press
  returned, \<open>False\<close> when it raised or was not tried.
\<close>

definition click_enter :: "'w driver \<Rightarrow> AutomationStep \<Rightarrow> ('w tool, bool) io" where
  "click_enter d step =
     (if mentions_enter step
      then io_catch
             (io_bind (on_world (keyboard_press d ''Enter''))
                (\<lambda>u. io_bind (do_sleep d 1000) (\<lambda>u. io_return True)))
             (\<lambda>e. io_return False)
      else io_return False)"

text \<open>One candidate: wait for the element, scroll to it, pause, click.\<close>

definition click_attempt :: "'w driver \<Rightarrow> AutomationStep \<Rightarrow> string \<Rightarrow> ('w tool, unit) io" where
  "click_attempt d step sel =
     io_bind (on_world (page_wait_for_selector d sel (timeout step)))
       (\<lambda>u. io_bind (on_world (locator_scroll_into_view_if_needed d sel))
          (\<lambda>u. io_bind (do_sleep d 300)
             (\<lambda>u. on_world (locator_click d sel 5000))))"

text \<open>
  The loop over the candidates: \<open>True\<close> at the first candidate whose attempt returns,
  \<open>False\<close> when the list is exhausted.
\<close>

fun click_candidates :: "'w driver \<Rightarrow> AutomationStep \<Rightarrow> string list \<Rightarrow> ('w tool, bool) io" where
  "click_candidates d step [] t = (Inr False, t)"
| "click_candidates d step (sel # sels) t =
     (case io_catch (io_bind (click_attempt d step sel) (\<lambda>u. io_return True))
             (\<lambda>e. io_return False) t of
        (Inl e, t1) \<Rightarrow> (Inl e, t1)
      | (Inr ok, t1) \<Rightarrow> if ok then (Inr True, t1) else click_candidates d step sels t1)"

definition click_by_text :: "'w driver \<Rightarrow> AutomationStep \<Rightarrow> ('w tool, bool) io" where
  "click_by_text d step =
     (case target step of
        None \<Rightarrow> io_return False
      | Some tg \<Rightarrow>
          if tg = [] then io_return False
          else io_catch
                 (io_bind (on_world (get_by_text_click d tg 3000)) (\<lambda>u. io_return True))
                 (\<lambda>e. io_return False))"

definition smart_click_body :: "'w driver \<Rightarrow> AutomationStep \<Rightarrow> ('w tool, bool) io" where
  "smart_click_body d step =
     io_bind (click_enter d step)
       (\<lambda>entered.
          if entered then io_return True
          else io_bind
                 (\<lambda>t. click_candidates d step (get_smart_selectors t (target step) ''click'') t)
                 (\<lambda>clicked.
                    if clicked then io_return True
                    else io_bind (click_by_text d step)
                           (\<lambda>by_text.
                              if by_text then io_return True
                              else io_return (optional step))))"

definition smart_click :: "'w driver \<Rightarrow> AutomationStep \<Rightarrow> ('w tool, bool) io" where
  "smart_click d step = io_catch (smart_click_body d step) (\<lambda>e. io_return False)"

subsection \<open>Fill\<close>

text \<open>
  One candidate: wait for the element, focus, clear, type the value, and read the
  content of the element back.
\<close>

definition fill_type_and_read ::
  "'w driver \<Rightarrow> AutomationStep \<Rightarrow> string \<Rightarrow> string \<Rightarrow> ('w tool, string) io" where
  "fill_type_and_read d step v sel =
     io_bind (on_world (page_wait_for_selector d sel (timeout step)))
       (\<lambda>u. io_bind (on_world (locator_focus d sel))
          (\<lambda>u. io_bind (on_world (locator_clear d sel))
             (\<lambda>u. io_bind (do_sleep d 200)
                (\<lambda>u. io_bind (on_world (locator_type d sel v))
                   (\<lambda>u. io_bind (do_sleep d 300)
                      (\<lambda>u. on_world (locator_input_value d sel)))))))"

text \<open>\<open>current_value and step.value.lower() in current_value.lower()\<close>.\<close>

definition verified :: "string \<Rightarrow> string \<Rightarrow> bool" where
  "verified v current_value =
     (current_value \<noteq> [] \<and> sublist (py_lower v) (py_lower current_value))"

definition fill_attempt ::
  "'w driver \<Rightarrow> AutomationStep \<Rightarrow> string \<Rightarrow> string \<Rightarrow> ('w tool, bool) io" where
  "fill_attempt d step v sel =
     io_bind (fill_type_and_read d step v sel)
       (\<lambda>current_value. io_return (verified v current_value))"

fun fill_candidates ::
  "'w driver \<Rightarrow> AutomationStep \<Rightarrow> string \<Rightarrow> string list \<Rightarrow> ('w tool, bool) io" where
  "fill_candidates d step v [] t = (Inr False, t)"
| "fill_candidates d step v (sel # sels) t =
     (case io_catch (fill_attempt d step v sel) (\<lambda>e. io_return False) t of
        (Inl e, t1) \<Rightarrow> (Inl e, t1)
      | (Inr ok, t1) \<Rightarrow> if ok then (Inr True, t1) else fill_candidates d step v sels t1)"

definition smart_fill_body :: "'w driver \<Rightarrow> AutomationStep \<Rightarrow> ('w tool, bool) io" where
  "smart_fill_body d step =
     (case step_value step of
        None \<Rightarrow> io_return False
      | Some v \<Rightarrow>
          if v = [] then io_return False
          else io_bind
                 (\<lambda>t. fill_candidates d step v (get_smart_selectors t (target step) ''fill'') t)
                 (\<lambda>filled. if filled then io_return True else io_return (optional step)))"

definition smart_fill :: "'w driver \<Rightarrow> AutomationStep \<Rightarrow> ('w tool, bool) io" where
  "smart_fill d step = io_catch (smart_fill_body d step) (\<lambda>e. io_return False)"

subsection \<open>Wait, scroll, screenshot\<close>

definition wait_step :: "'w driver \<Rightarrow> AutomationStep \<Rightarrow> ('w tool, bool) io" where
  "wait_step d step =
     io_catch
       (io_bind (do_sleep d (if wait_after step > 0 then wait_after step else 1000))
          (\<lambda>u. io_return True))
       (\<lambda>e. io_return False)"

definition scroll :: "'w driver \<Rightarrow> AutomationStep \<Rightarrow> ('w tool, bool) io" where
  "scroll d step =
     io_catch
       (io_bind
          (case step_value step of
             None \<Rightarrow> on_world (keyboard_press d ''PageDown'')
           | Some v \<Rightarrow>
               if v = [] then on_world (keyboard_press d ''PageDown'')
               else (case py_int d v of
                       None \<Rightarrow> io_raise ValueError
                     | Some n \<Rightarrow> on_world (mouse_wheel d n)))
          (\<lambda>u. io_return True))
       (\<lambda>e. io_return False)"

definition screenshot :: "'w driver \<Rightarrow> AutomationStep \<Rightarrow> ('w tool, bool) io" where
  "screenshot d step =
     io_catch (io_bind (on_world (page_screenshot d)) (\<lambda>u. io_return True))
       (\<lambda>e. io_return False)"

subsection \<open>One step\<close>

text \<open>The pause after a successful action.\<close>

definition wait_after_action :: "'w driver \<Rightarrow> AutomationStep \<Rightarrow> bool \<Rightarrow> ('w tool, bool) io" where
  "wait_after_action d step success =
     (if success \<and> wait_after step > 0
      then io_bind (do_sleep d (wait_after step)) (\<lambda>u. io_return success)
      else io_return success)"

definition execute_step_body :: "'w driver \<Rightarrow> AutomationStep \<Rightarrow> ('w tool, bool) io" where
  "execute_step_body d step =
     (case action step of
        NAVIGATE \<Rightarrow> io_bind (navigate d step) (wait_after_action d step)
      | CLICK \<Rightarrow> io_bind (smart_click d step) (wait_after_action d step)
      | FILL \<Rightarrow> io_bind (smart_fill d step) (wait_after_action d step)
      | WAIT \<Rightarrow> io_bind (wait_step d step) (wait_after_action d step)
      | SCROLL \<Rightarrow> io_bind (scroll d step) (wait_after_action d step)
      | SCREENSHOT \<Rightarrow> io_bind (screenshot d step) (wait_after_action d step)
      | EXTRACT_TEXT \<Rightarrow> io_return False
      | HOVER \<Rightarrow> io_return False)"

definition execute_step :: "'w driver \<Rightarrow> AutomationStep \<Rightarrow> ('w tool, bool) io" where
  "execute_step d step = io_catch (execute_step_body d step) (\<lambda>e. io_return False)"

section \<open>Automation session\<close>

text \<open>
  \<open>__init__\<close>: no browser resource yet, an empty current URL; \<open>has_llm\<close> tells whether
  the language model could be set up.
\<close>

definition new_tool :: "bool \<Rightarrow> 'w \<Rightarrow> 'w tool" where
  "new_tool has_llm w =
     \<lparr>playwright_instance = None, browser = None, browser_context = None, page = None,
      current_url = [], llm = has_llm, opened = [], closed = [], world = w\<rparr>"

text \<open>
  A creation call that returns gives a new resource, named by the next free number and
  recorded in \<open>opened\<close>. A close call that returns is recorded in \<open>closed\<close>; a field
  that is \<open>None\<close> is skipped, as \<open>if self.page:\<close> does.
\<close>

definition create_resource :: "('w, unit) io \<Rightarrow> ('w tool, nat) io" where
  "create_resource prim =
     (\<lambda>t. case prim (world t) of
            (Inl e, w1) \<Rightarrow> (Inl e, t\<lparr>world := w1\<rparr>)
          | (Inr u, w1) \<Rightarrow>
              (Inr (length (opened t)),
               t\<lparr>world := w1, opened := opened t @ [length (opened t)]\<rparr>))"

definition close_resource :: "(nat \<Rightarrow> ('w, unit) io) \<Rightarrow> nat option \<Rightarrow> ('w tool, unit) io" where
  "close_resource prim field =
     (case field of
        None \<Rightarrow> io_return ()
      | Some h \<Rightarrow>
          (\<lambda>t. case prim h (world t) of
                 (Inl e, w1) \<Rightarrow> (Inl e, t\<lparr>world := w1\<rparr>)
               | (Inr u, w1) \<Rightarrow> (Inr (), t\<lparr>world := w1, closed := closed t @ [h]\<rparr>)))"

definition init_browser_body :: "'w driver \<Rightarrow> ('w tool, unit) io" where
  "init_browser_body d =
     io_bind (create_resource (start_playwright d))
       (\<lambda>pw. io_bind (\<lambda>t. (Inr (), t\<lparr>playwright_instance := Some pw\<rparr>))
          (\<lambda>u. io_bind (create_resource (chromium_launch d pw))
             (\<lambda>b. io_bind (\<lambda>t. (Inr (), t\<lparr>browser := Some b\<rparr>))
                (\<lambda>u. io_bind (create_resource (browser_new_context d b))
                   (\<lambda>c. io_bind (\<lambda>t. (Inr (), t\<lparr>browser_context := Some c\<rparr>))
                      (\<lambda>u. io_bind (create_resource (context_new_page d c))
                         (\<lambda>p. io_bind (\<lambda>t. (Inr (), t\<lparr>page := Some p\<rparr>))
                            (\<lambda>u. on_world (page_set_default_timeout d p)))))))))"

text \<open>The handler of \<open>_init_browser\<close> logs and raises the exception again.\<close>

definition init_browser :: "'w driver \<Rightarrow> ('w tool, unit) io" where
  "init_browser d = io_catch (init_browser_body d) (\<lambda>e. io_raise e)"

text \<open>One \<open>try\<close> block holds the four close calls; its handler logs and returns.\<close>

definition cleanup_browser :: "'w driver \<Rightarrow> ('w tool, unit) io" where
  "cleanup_browser d =
     io_catch
       (io_bind (\<lambda>t. close_resource (page_close d) (page t) t)
          (\<lambda>u. io_bind (\<lambda>t. close_resource (context_close d) (browser_context t) t)
             (\<lambda>u. io_bind (\<lambda>t. close_resource (browser_close d) (browser t) t)
                (\<lambda>u t. close_resource (playwright_stop d) (playwright_instance t) t))))
       (\<lambda>e. io_return ())"

definition pattern_plan :: "string \<Rightarrow> string \<Rightarrow> ('w tool, AutomationStep list) io" where
  "pattern_plan instruction url = (\<lambda>t. (Inr (create_pattern_plan t instruction url), t))"

definition create_automation_plan ::
  "'w driver \<Rightarrow> string \<Rightarrow> string \<Rightarrow> ('w tool, AutomationStep list) io" where
  "create_automation_plan d instruction url =
     (\<lambda>t. if llm t
          then io_catch (on_world (llm_plan d instruction url))
                 (\<lambda>e. pattern_plan instruction url) t
          else pattern_plan instruction url t)"

text \<open>The entries of the result trace; their rendering as text is not modelled.\<close>

datatype trace_entry =
  Executing nat string
| StepStarted nat string
| StepCompleted nat
| StepSkipped nat
| StepFailed nat
| StepError nat exn
| AutomationCompleted
| CriticalError exn

fun run_steps ::
  "'w driver \<Rightarrow> AutomationStep list \<Rightarrow> nat \<Rightarrow> trace_entry list \<Rightarrow> ('w tool, trace_entry list) io"
  where
  "run_steps d [] i results t = (Inr results, t)"
| "run_steps d (step # steps) i results t =
     (case execute_step d step t of
        (Inr success, t1) \<Rightarrow>
          run_steps d steps (Suc i)
            (results @ [StepStarted i (description step),
                        if success then StepCompleted i
                        else if optional step then StepSkipped i
                        else StepFailed i]) t1
      | (Inl e, t1) \<Rightarrow>
          run_steps d steps (Suc i)
            (results @ [StepStarted i (description step), StepError i e]) t1)"

definition execute_automation ::
  "'w driver \<Rightarrow> string \<Rightarrow> string \<Rightarrow> ('w tool, trace_entry list) io" where
  "execute_automation d instruction url =
     io_finally
       (io_catch
          (io_bind (init_browser d)
             (\<lambda>u. io_bind (create_automation_plan d instruction url)
                (\<lambda>automation_plan.
                   io_bind (run_steps d automation_plan 1
                              [Executing (length automation_plan) instruction])
                     (\<lambda>results. io_return (results @ [AutomationCompleted])))))
          (\<lambda>e. io_return [CriticalError e]))
       (cleanup_browser d)"

text \<open>The resources that were created and never closed.\<close>

definition leaked :: "'w tool \<Rightarrow> nat list" where
  "leaked t = filter (\<lambda>h. h \<notin> set (closed t)) (opened t)"

section \<open>Notions used in the statements\<close>

definition first_navigates :: "AutomationStep list \<Rightarrow> string \<Rightarrow> bool" where
  "first_navigates plan url =
     (case plan of [] \<Rightarrow> False | s # rest \<Rightarrow> action s = NAVIGATE \<and> target s = Some url)"

definition has_action :: "ActionType \<Rightarrow> AutomationStep list \<Rightarrow> bool" where
  "has_action a plan = list_ex (\<lambda>s. action s = a) plan"

definition site_keyword :: "string \<Rightarrow> bool" where
  "site_keyword instruction =
     (sublist ''youtube'' (py_lower instruction) \<or> sublist ''google'' (py_lower instruction) \<or>
      sublist ''amazon'' (py_lower instruction))"

section \<open>Stub pages\<close>

text \<open>
  A page with one text box, found by the selector \<open>input[name='q']\<close> only; the world
  is the content of the box. No button is found by a selector or by its text; the
  keyboard works. Navigation answers 200 to a URL with a scheme and gives no response
  to any other.
\<close>

definition stub_driver :: "string driver" where
  "stub_driver =
     \<lparr>page_goto =
        (\<lambda>url. io_return
                 (if prefix ''https://'' url \<or> prefix ''http://'' url then Some 200 else None)),
      page_wait_for_load_state = io_return (),
      keyboard_press = (\<lambda>key. io_return ()),
      page_wait_for_selector =
        (\<lambda>sel ms. if sel = ''input[name='q']'' then io_return () else io_raise TimeoutError),
      locator_scroll_into_view_if_needed = (\<lambda>sel. io_return ()),
      locator_click = (\<lambda>sel ms. io_return ()),
      get_by_text_click = (\<lambda>txt ms. io_raise TimeoutError),
      locator_focus = (\<lambda>sel. io_return ()),
      locator_clear = (\<lambda>sel w. (Inr (), [])),
      locator_type = (\<lambda>sel v w. (Inr (), w @ v)),
      locator_input_value = (\<lambda>sel w. (Inr w, w)),
      mouse_wheel = (\<lambda>n. io_return ()),
      page_screenshot = io_return (),
      asyncio_sleep = (\<lambda>ms w. w),
      py_int = (\<lambda>s. None),
      llm_plan = (\<lambda>instruction url. io_raise (PlaywrightError ''no model'')),
      start_playwright = io_return (),
      chromium_launch = (\<lambda>h. io_return ()),
      browser_new_context = (\<lambda>h. io_return ()),
      context_new_page = (\<lambda>h. io_return ()),
      page_set_default_timeout = (\<lambda>h. io_return ()),
      page_close = (\<lambda>h. io_return ()),
      context_close = (\<lambda>h. io_return ()),
      browser_close = (\<lambda>h. io_return ()),
      playwright_stop = (\<lambda>h. io_return ())\<rparr>"

text \<open>
  The same page with a text box that silently drops what is typed and always reads back
  empty.
\<close>

definition rejecting_driver :: "string driver" where
  "rejecting_driver =
     stub_driver\<lparr>locator_type := (\<lambda>sel v. io_return ()),
                 locator_input_value := (\<lambda>sel. io_return [])\<rparr>"

text \<open>The same page with a keyboard that raises.\<close>

definition no_keyboard_driver :: "string driver" where
  "no_keyboard_driver = stub_driver\<lparr>keyboard_press := (\<lambda>key. io_raise (PlaywrightError ''key''))\<rparr>"

text \<open>A page whose navigation answers with status 404, and one that gives no response.\<close>

definition not_found_driver :: "string driver" where
  "not_found_driver = stub_driver\<lparr>page_goto := (\<lambda>url. io_return (Some 404))\<rparr>"

definition no_response_driver :: "string driver" where
  "no_response_driver = stub_driver\<lparr>page_goto := (\<lambda>url. io_return None)\<rparr>"

definition unreachable_driver :: "string driver" where
  "unreachable_driver = stub_driver\<lparr>page_goto := (\<lambda>url. io_raise TimeoutError)\<rparr>"

text \<open>A browser whose \<open>page.close()\<close> raises.\<close>

definition close_fails_driver :: "string driver" where
  "close_fails_driver =
     stub_driver\<lparr>page_close := (\<lambda>h. io_raise (PlaywrightError ''close''))\<rparr>"

text \<open>The steps of the examples.\<close>

definition search_fill_step :: "bool \<Rightarrow> AutomationStep" where
  "search_fill_step opt =
     (mk_step FILL ''Search for weather'')
       \<lparr>target := Some ''search'', step_value := Some ''Weather'', optional := opt\<rparr>"

definition valueless_fill_step :: AutomationStep where
  "valueless_fill_step =
     (mk_step FILL ''Fill the search box'')\<lparr>target := Some ''search'', optional := True\<rparr>"

definition submit_click_step :: "bool \<Rightarrow> AutomationStep" where
  "submit_click_step opt =
     (mk_step CLICK ''Submit search'')\<lparr>target := Some ''search_submit'', optional := opt\<rparr>"

definition navigate_step :: "string \<Rightarrow> AutomationStep" where
  "navigate_step tg = (mk_step NAVIGATE ''Navigate'')\<lparr>target := Some tg\<rparr>"

text \<open>A tool as \<open>__init__\<close> leaves it when no language model is available.\<close>

definition fresh_tool :: "string tool" where
  "fresh_tool = new_tool False []"

section \<open>Words of a phrase\<close>

lemma split_acc_word:
  "\<forall>c \<in> set w. \<not> is_space c \<Longrightarrow> split_acc cur (w @ rest) = split_acc (cur @ w) rest"
  by (induction w arbitrary: cur) auto

lemma split_acc_good:
  "\<forall>c \<in> set cur. \<not> is_space c \<Longrightarrow> w \<in> set (split_acc cur s) \<Longrightarrow>
   w \<noteq> [] \<and> (\<forall>c \<in> set w. \<not> is_space c)"
proof (induction s arbitrary: cur)
  case Nil
  then show ?case by (auto split: if_splits)
next
  case (Cons c cs)
  show ?case
  proof (cases "is_space c")
    case True
    with Cons.prems have "w = cur \<and> cur \<noteq> [] \<or> w \<in> set (split_acc [] cs)"
      by (auto split: if_splits)
    then show ?thesis
    proof
      assume "w = cur \<and> cur \<noteq> []"
      with Cons.prems(1) show ?thesis by simp
    next
      assume "w \<in> set (split_acc [] cs)"
      with Cons.IH[of "[]"] show ?thesis by simp
    qed
  next
    case False
    with Cons.prems have "w \<in> set (split_acc (cur @ [c]) cs)" by simp
    moreover from False Cons.prems(1) have "\<forall>x \<in> set (cur @ [c]). \<not> is_space x" by simp
    ultimately show ?thesis using Cons.IH[of "cur @ [c]"] by blast
  qed
qed

lemma py_split_good: "w \<in> set (py_split s) \<Longrightarrow> w \<noteq> [] \<and> (\<forall>c \<in> set w. \<not> is_space c)"
  unfolding py_split_def using split_acc_good[of "[]" w s] by simp

text \<open>Splitting a phrase that was joined from words gives the words back.\<close>

lemma py_split_join:
  "\<forall>w \<in> set ws. w \<noteq> [] \<and> (\<forall>c \<in> set w. \<not> is_space c) \<Longrightarrow>
   py_split (py_join '' '' ws) = ws"
proof (induction ws)
  case Nil
  then show ?case by (simp add: py_split_def)
next
  case (Cons w ws)
  then have w: "w \<noteq> []" "\<forall>c \<in> set w. \<not> is_space c" by simp_all
  show ?case
  proof (cases ws)
    case Nil
    then show ?thesis using split_acc_word[of w "[]" "[]"] w by (simp add: py_split_def)
  next
    case (Cons v vs)
    have sp: "is_space (CHR '' '')" by (simp add: is_space_def)
    have "py_split (py_join '' '' (w # ws)) = split_acc [] (w @ CHR '' '' # py_join '' '' ws)"
      using Cons by (simp add: py_split_def)
    also have "\<dots> = split_acc w (CHR '' '' # py_join '' '' ws)"
      using split_acc_word[of w "[]"] w by simp
    also have "\<dots> = w # split_acc [] (py_join '' '' ws)"
      using w sp by simp
    also have "\<dots> = w # ws"
      using Cons.IH Cons.prems by (simp add: py_split_def)
    finally show ?thesis .
  qed
qed

lemma stop_words_lower: "w \<in> set stop_words \<Longrightarrow> py_lower w = w"
  by (auto simp: stop_words_def py_lower_def lower_char_def)

lemma stop_in_skip: "w \<in> set stop_words \<Longrightarrow> w \<in> set skip_words"
  by (auto simp: stop_words_def skip_words_def)

lemma cats_split: "py_split ''cats'' = [''cats'']"
  by (simp add: py_split_def is_space_def)

section \<open>The pattern planner: results\<close>

text \<open>
  Claim C5. When the lower-cased instruction contains \<open>youtube\<close>, the plan of
  \<open>_create_pattern_plan\<close> starts with a NAVIGATE step to \<open>https://youtube.com\<close>; when
  it contains \<open>google\<close> and not \<open>youtube\<close>, with a NAVIGATE step to
  \<open>https://google.com\<close>; when it contains \<open>amazon\<close> and neither of the two, with a
  NAVIGATE step to \<open>https://amazon.com\<close>. This holds whatever the search phrase and the
  start URL are.
\<close>

theorem pattern_plan_first_step_site:
  "(sublist ''youtube'' (py_lower instruction) \<longrightarrow>
      first_navigates (create_pattern_plan self instruction url) ''https://youtube.com'') \<and>
   (\<not> sublist ''youtube'' (py_lower instruction) \<and> sublist ''google'' (py_lower instruction) \<longrightarrow>
      first_navigates (create_pattern_plan self instruction url) ''https://google.com'') \<and>
   (\<not> sublist ''youtube'' (py_lower instruction) \<and> \<not> sublist ''google'' (py_lower instruction) \<and>
    sublist ''amazon'' (py_lower instruction) \<longrightarrow>
      first_navigates (create_pattern_plan self instruction url) ''https://amazon.com'')"
  by (simp add: create_pattern_plan_def Let_def first_navigates_def mk_step_def)

text \<open>
  Three instructions, one for each site; the second names Google and Amazon and goes to
  Google.
\<close>

theorem pattern_plan_first_step_site_witness:
  "sublist ''youtube'' (py_lower ''Go to YouTube and search for cats'') \<and>
   first_navigates (create_pattern_plan fresh_tool ''Go to YouTube and search for cats'' [])
     ''https://youtube.com'' \<and>
   \<not> sublist ''youtube'' (py_lower ''search Google for amazon deals'') \<and>
   sublist ''google'' (py_lower ''search Google for amazon deals'') \<and>
   first_navigates (create_pattern_plan fresh_tool ''search Google for amazon deals'' [])
     ''https://google.com'' \<and>
   \<not> sublist ''youtube'' (py_lower ''find headphones on Amazon'') \<and>
   \<not> sublist ''google'' (py_lower ''find headphones on Amazon'') \<and>
   sublist ''amazon'' (py_lower ''find headphones on Amazon'') \<and>
   first_navigates (create_pattern_plan fresh_tool ''find headphones on Amazon'' [])
     ''https://amazon.com''"
proof -
  have y: "sublist ''youtube'' (py_lower ''Go to YouTube and search for cats'')"
    by code_simp
  have g: "\<not> sublist ''youtube'' (py_lower ''search Google for amazon deals'') \<and>
           sublist ''google'' (py_lower ''search Google for amazon deals'')"
    by code_simp
  have a: "\<not> sublist ''youtube'' (py_lower ''find headphones on Amazon'') \<and>
           \<not> sublist ''google'' (py_lower ''find headphones on Amazon'') \<and>
           sublist ''amazon'' (py_lower ''find headphones on Amazon'')"
    by code_simp
  show ?thesis
    using y g a
      pattern_plan_first_step_site[of "''Go to YouTube and search for cats''" fresh_tool "[]"]
      pattern_plan_first_step_site[of "''search Google for amazon deals''" fresh_tool "[]"]
      pattern_plan_first_step_site[of "''find headphones on Amazon''" fresh_tool "[]"]
    by blast
qed

text \<open>
  Claim C6, as stated, fails: for an instruction that names no site and a start URL
  that is not empty, the plan is a NAVIGATE step and a WAIT step, with no FILL step.
\<close>

theorem pattern_plan_without_fill:
  "\<not> has_action FILL (create_pattern_plan fresh_tool ''open the page'' ''https://example.com'')"
  by code_simp

text \<open>
  Claim C6, amended. For every instruction and start URL the plan of
  \<open>_create_pattern_plan\<close> is not empty and has a NAVIGATE step and a WAIT step; it has a
  FILL step exactly when the instruction names one of the three sites or the start URL
  is empty. When the instruction names no site and the start URL is not empty, the plan
  is a NAVIGATE step followed by a WAIT step, and nothing else.
\<close>

theorem pattern_plan_steps:
  "create_pattern_plan self instruction url \<noteq> [] \<and>
   has_action NAVIGATE (create_pattern_plan self instruction url) \<and>
   has_action WAIT (create_pattern_plan self instruction url) \<and>
   (has_action FILL (create_pattern_plan self instruction url) \<longleftrightarrow>
      site_keyword instruction \<or> url = []) \<and>
   (\<not> site_keyword instruction \<and> url \<noteq> [] \<longrightarrow>
      map action (create_pattern_plan self instruction url) = [NAVIGATE, WAIT])"
  by (simp add: create_pattern_plan_def Let_def has_action_def mk_step_def site_keyword_def)

text \<open>
  A plan with a FILL step for a named site, one for an empty start URL, and the plan of
  two steps for a start URL with no site named.
\<close>

theorem pattern_plan_steps_witness:
  "site_keyword ''Go to Google and search for weather'' \<and>
   has_action FILL
     (create_pattern_plan fresh_tool ''Go to Google and search for weather''
        ''https://example.com'') \<and>
   \<not> site_keyword ''open the page'' \<and>
   has_action FILL (create_pattern_plan fresh_tool ''open the page'' []) \<and>
   ''https://example.com'' \<noteq> [] \<and>
   map action (create_pattern_plan fresh_tool ''open the page'' ''https://example.com'')
     = [NAVIGATE, WAIT]"
proof -
  have a: "site_keyword ''Go to Google and search for weather''" by code_simp
  have b: "\<not> site_keyword ''open the page''" by code_simp
  have c: "''https://example.com'' \<noteq> []" by simp
  show ?thesis
    using a b c
      pattern_plan_steps[of fresh_tool "''Go to Google and search for weather''"
        "''https://example.com''"]
      pattern_plan_steps[of fresh_tool "''open the page''" "[]"]
      pattern_plan_steps[of fresh_tool "''open the page''" "''https://example.com''"]
    by blast
qed

text \<open>
  Claim C8. The phrase \<open>_extract_search_query\<close> returns is a function of the
  instruction alone: two calls on the same instruction give the same phrase, whatever
  the state of the tool is at each call.
\<close>

theorem extract_search_query_deterministic:
  "extract_search_query self1 instruction = extract_search_query self2 instruction"
  by (simp add: extract_search_query_def)

text \<open>
  Claim C9. On \<open>Go to YouTube and search for thailand itinerary 10 days\<close> the code
  returns the phrase \<open>thail\<close>, not \<open>thailand itinerary 10 days\<close>: the lazy group stops
  in front of the letters \<open>and\<close> of \<open>thailand\<close>, which the alternation accepts with no
  word boundary. The plan does start with a NAVIGATE step to \<open>https://youtube.com\<close>.
\<close>

theorem extract_search_query_thailand:
  "extract_search_query self ''Go to YouTube and search for thailand itinerary 10 days''
     = ''thail'' \<and>
   extract_search_query self ''Go to YouTube and search for thailand itinerary 10 days''
     \<noteq> ''thailand itinerary 10 days'' \<and>
   first_navigates
     (create_pattern_plan self ''Go to YouTube and search for thailand itinerary 10 days'' url)
     ''https://youtube.com''"
proof -
  have a: "extract_search_query self
             ''Go to YouTube and search for thailand itinerary 10 days'' = ''thail''"
    by code_simp
  have b: "sublist ''youtube''
             (py_lower ''Go to YouTube and search for thailand itinerary 10 days'')"
    by code_simp
  have c: "first_navigates
             (create_pattern_plan self
                ''Go to YouTube and search for thailand itinerary 10 days'' url)
             ''https://youtube.com''"
    using b by (simp add: create_pattern_plan_def Let_def first_navigates_def mk_step_def)
  show ?thesis using a c by simp
qed

text \<open>
  Claim C10. None of the words of the phrase returned by \<open>_extract_search_query\<close> is
  one of \<open>and\<close>, \<open>then\<close>, \<open>play\<close>, \<open>click\<close>, \<open>first\<close>, \<open>video\<close>. The words of a
  phrase are what \<open>split()\<close> gives.
\<close>

theorem extract_search_query_no_stop_words:
  "\<forall>w \<in> set (py_split (extract_search_query self instruction)). w \<notin> set stop_words"
proof (cases "first_match patterns (py_lower instruction)")
  case None
  let ?m = "filter (\<lambda>w. w \<notin> set skip_words \<and> \<not> suffix ''.com'' w)
              (py_split (py_lower instruction))"
  show ?thesis
  proof (cases "?m = []")
    case True
    with None have "extract_search_query self instruction = ''cats''"
      by (simp add: extract_search_query_def)
    then show ?thesis by (simp add: cats_split stop_words_def)
  next
    case False
    with None have e: "extract_search_query self instruction = py_join '' '' (take 5 ?m)"
      by (simp add: extract_search_query_def)
    have good: "\<forall>w \<in> set (take 5 ?m). w \<noteq> [] \<and> (\<forall>c \<in> set w. \<not> is_space c)"
    proof
      fix w assume "w \<in> set (take 5 ?m)"
      then have "w \<in> set ?m" by (rule in_set_takeD)
      then have "w \<in> set (py_split (py_lower instruction))" by simp
      then show "w \<noteq> [] \<and> (\<forall>c \<in> set w. \<not> is_space c)" by (rule py_split_good)
    qed
    have eq: "py_split (extract_search_query self instruction) = take 5 ?m"
      unfolding e by (rule py_split_join[OF good])
    have "\<forall>w \<in> set (take 5 ?m). w \<notin> set stop_words"
      using stop_in_skip by (auto dest!: in_set_takeD)
    then show ?thesis unfolding eq .
  qed
next
  case (Some g)
  let ?ws = "filter (\<lambda>w. py_lower w \<notin> set stop_words) (py_split (py_strip g))"
  from Some have e: "extract_search_query self instruction = py_join '' '' ?ws"
    by (simp add: extract_search_query_def)
  have good: "\<forall>w \<in> set ?ws. w \<noteq> [] \<and> (\<forall>c \<in> set w. \<not> is_space c)"
    using py_split_good by auto
  have eq: "py_split (extract_search_query self instruction) = ?ws"
    unfolding e by (rule py_split_join[OF good])
  have "\<forall>w \<in> set ?ws. w \<notin> set stop_words"
    using stop_words_lower by auto
  then show ?thesis unfolding eq .
qed

text \<open>
  An instruction whose captured phrase has the stop word \<open>first\<close> in it: the phrase
  returned has the words \<open>funny\<close> and \<open>cats\<close>.
\<close>

theorem extract_search_query_no_stop_words_witness:
  "''funny'' \<in> set (py_split (extract_search_query fresh_tool
      ''search for funny first cats and play the first video'')) \<and>
   ''funny'' \<notin> set stop_words \<and>
   ''first'' \<notin> set (py_split (extract_search_query fresh_tool
      ''search for funny first cats and play the first video''))"
proof -
  have a: "py_split (extract_search_query fresh_tool
             ''search for funny first cats and play the first video'') = [''funny'', ''cats'']"
    by code_simp
  have b: "''first'' \<in> set stop_words" by (simp add: stop_words_def)
  show ?thesis
    using extract_search_query_no_stop_words[of fresh_tool
        "''search for funny first cats and play the first video''"] b
    unfolding a by (auto simp: stop_words_def)
qed

section \<open>The step executor: auxiliary facts\<close>

lemma get_smart_selectors_self: "get_smart_selectors s tgt a = get_smart_selectors t tgt a"
  by (simp add: get_smart_selectors_def)

lemma catch_returns: "\<exists>x s1. io_catch m (\<lambda>e. io_return a) s = (Inr x, s1)"
  by (cases "m s") (auto simp: io_catch_def io_return_def split: sum.splits)

lemma io_bind_InrD:
  "io_bind m f t = (Inr y, t2) \<Longrightarrow> \<exists>x t1. m t = (Inr x, t1) \<and> f x t1 = (Inr y, t2)"
  by (auto simp: io_bind_def split: prod.splits sum.splits)

lemma on_world_InrD: "on_world f t = (Inr y, t1) \<Longrightarrow> \<exists>w1. f (world t) = (Inr y, w1)"
  by (auto simp: on_world_def split: prod.splits)

lemma catch_Inl: "m t = (Inl e, t1) \<Longrightarrow> io_catch m (\<lambda>e. io_return a) t = (Inr a, t1)"
  by (simp add: io_catch_def io_return_def)

lemma catch_Inr: "m t = (Inr x, t1) \<Longrightarrow> io_catch m h t = (Inr x, t1)"
  by (simp add: io_catch_def)

lemma bind_Inl: "m t = (Inl e, t1) \<Longrightarrow> io_bind m f t = (Inl e, t1)"
  by (simp add: io_bind_def)

lemma bind_Inr: "m t = (Inr x, t1) \<Longrightarrow> io_bind m f t = f x t1"
  by (simp add: io_bind_def)

lemma on_world_Inl: "f (world t) = (Inl e, w1) \<Longrightarrow> on_world f t = (Inl e, t\<lparr>world := w1\<rparr>)"
  by (simp add: on_world_def)

lemma isl_fstD: "isl (fst p) \<Longrightarrow> \<exists>e s. p = (Inl e, s)"
  by (cases p) (auto simp: isl_def)

subsection \<open>Click: the candidates\<close>

lemma click_candidates_advance:
  "click_attempt d step sel t = (Inl e, t1) \<Longrightarrow>
   click_candidates d step (sel # sels) t = click_candidates d step sels t1"
proof -
  assume "click_attempt d step sel t = (Inl e, t1)"
  then have "io_catch (io_bind (click_attempt d step sel) (\<lambda>u. io_return True))
               (\<lambda>e. io_return False) t = (Inr False, t1)"
    by (intro catch_Inl bind_Inl)
  then show ?thesis by simp
qed

lemma click_candidates_returns: "\<exists>b t1. click_candidates d step sels t = (Inr b, t1)"
proof (induction sels arbitrary: t)
  case Nil
  show ?case by auto
next
  case (Cons sel sels)
  obtain ok t1 where a:
    "io_catch (io_bind (click_attempt d step sel) (\<lambda>u. io_return True))
       (\<lambda>e. io_return False) t = (Inr ok, t1)"
    using catch_returns[of "io_bind (click_attempt d step sel) (\<lambda>u. io_return True)" False t]
    by blast
  show ?case using a Cons.IH[of t1] by (cases ok) auto
qed

lemma click_candidates_all_fail:
  "\<forall>sel \<in> set sels. \<forall>s. isl (fst (click_attempt d step sel s)) \<Longrightarrow>
   \<exists>t1. click_candidates d step sels t = (Inr False, t1)"
proof (induction sels arbitrary: t)
  case Nil
  show ?case by auto
next
  case (Cons sel sels)
  from Cons.prems have "isl (fst (click_attempt d step sel t))" by simp
  then obtain e t1 where a: "click_attempt d step sel t = (Inl e, t1)"
    using isl_fstD by blast
  from Cons.prems have "\<forall>sel \<in> set sels. \<forall>s. isl (fst (click_attempt d step sel s))" by simp
  from Cons.IH[OF this, of t1] show ?case
    unfolding click_candidates_advance[OF a] .
qed

lemma click_enter_returns: "\<exists>b t1. click_enter d step t = (Inr b, t1)"
  unfolding click_enter_def using catch_returns by (auto simp: io_return_def)

lemma click_enter_fails:
  assumes "mentions_enter step \<longrightarrow> (\<forall>w. isl (fst (keyboard_press d ''Enter'' w)))"
  shows "\<exists>t1. click_enter d step t = (Inr False, t1)"
proof (cases "mentions_enter step")
  case False
  then show ?thesis by (simp add: click_enter_def io_return_def)
next
  case True
  with assms have "isl (fst (keyboard_press d ''Enter'' (world t)))" by simp
  then obtain e w1 where "keyboard_press d ''Enter'' (world t) = (Inl e, w1)"
    using isl_fstD by blast
  then have "on_world (keyboard_press d ''Enter'') t = (Inl e, t\<lparr>world := w1\<rparr>)"
    by (rule on_world_Inl)
  then have "io_bind (on_world (keyboard_press d ''Enter''))
               (\<lambda>u. io_bind (do_sleep d 1000) (\<lambda>u. io_return True)) t
             = (Inl e, t\<lparr>world := w1\<rparr>)"
    by (rule bind_Inl)
  then show ?thesis using True by (simp add: click_enter_def catch_Inl)
qed

lemma click_by_text_returns: "\<exists>b t1. click_by_text d step t = (Inr b, t1)"
  unfolding click_by_text_def using catch_returns
  by (auto simp: io_return_def split: option.splits)

lemma click_by_text_fails:
  assumes "\<forall>tg w. target step = Some tg \<longrightarrow> isl (fst (get_by_text_click d tg 3000 w))"
  shows "\<exists>t1. click_by_text d step t = (Inr False, t1)"
proof (cases "target step")
  case None
  then show ?thesis by (simp add: click_by_text_def io_return_def)
next
  case (Some tg)
  show ?thesis
  proof (cases "tg = []")
    case True
    with Some show ?thesis by (simp add: click_by_text_def io_return_def)
  next
    case False
    from Some assms have "isl (fst (get_by_text_click d tg 3000 (world t)))" by simp
    then obtain e w1 where "get_by_text_click d tg 3000 (world t) = (Inl e, w1)"
      using isl_fstD by blast
    then have "on_world (get_by_text_click d tg 3000) t = (Inl e, t\<lparr>world := w1\<rparr>)"
      by (rule on_world_Inl)
    then have "io_bind (on_world (get_by_text_click d tg 3000)) (\<lambda>u. io_return True) t
               = (Inl e, t\<lparr>world := w1\<rparr>)"
      by (rule bind_Inl)
    then have "io_catch
                 (io_bind (on_world (get_by_text_click d tg 3000)) (\<lambda>u. io_return True))
                 (\<lambda>e. io_return False) t = (Inr False, t\<lparr>world := w1\<rparr>)"
      by (rule catch_Inl)
    with Some False show ?thesis by (simp add: click_by_text_def)
  qed
qed

lemma smart_click_body_returns: "\<exists>b t1. smart_click_body d step t = (Inr b, t1)"
proof -
  obtain b1 t1 where a: "click_enter d step t = (Inr b1, t1)"
    using click_enter_returns by blast
  obtain b2 t2 where b:
    "click_candidates d step (get_smart_selectors t1 (target step) ''click'') t1 = (Inr b2, t2)"
    using click_candidates_returns by blast
  obtain b3 t3 where c: "click_by_text d step t2 = (Inr b3, t3)"
    using click_by_text_returns by blast
  show ?thesis using a b c by (auto simp: smart_click_body_def io_bind_def io_return_def)
qed

lemma smart_click_all_fail:
  assumes enter: "mentions_enter step \<longrightarrow> (\<forall>w. isl (fst (keyboard_press d ''Enter'' w)))"
    and cands: "\<forall>sel \<in> set (get_smart_selectors t (target step) ''click'').
                  \<forall>s. isl (fst (click_attempt d step sel s))"
    and bytext: "\<forall>tg w. target step = Some tg \<longrightarrow> isl (fst (get_by_text_click d tg 3000 w))"
  shows "fst (smart_click d step t) = Inr (optional step)"
proof -
  obtain t1 where a: "click_enter d step t = (Inr False, t1)"
    using click_enter_fails[OF enter] by blast
  have sels: "get_smart_selectors t1 (target step) ''click''
                = get_smart_selectors t (target step) ''click''"
    by (rule get_smart_selectors_self)
  obtain t2 where b:
    "click_candidates d step (get_smart_selectors t1 (target step) ''click'') t1 = (Inr False, t2)"
    using click_candidates_all_fail[OF cands] unfolding sels by blast
  obtain t3 where c: "click_by_text d step t2 = (Inr False, t3)"
    using click_by_text_fails[OF bytext] by blast
  have "smart_click_body d step t = (Inr (optional step), t3)"
    using a b c by (simp add: smart_click_body_def io_bind_def io_return_def)
  then show ?thesis by (simp add: smart_click_def io_catch_def)
qed

subsection \<open>Fill: the candidates\<close>

lemma fill_candidates_advance:
  assumes "fill_attempt d step v sel t = (Inl e, t1)"
  shows "fill_candidates d step v (sel # sels) t = fill_candidates d step v sels t1"
proof -
  have "io_catch (fill_attempt d step v sel) (\<lambda>e. io_return False) t = (Inr False, t1)"
    using assms by (rule catch_Inl)
  then show ?thesis by simp
qed

lemma fill_candidates_False:
  assumes "fill_attempt d step v sel t = (Inr False, t1)"
  shows "fill_candidates d step v (sel # sels) t = fill_candidates d step v sels t1"
proof -
  have "io_catch (fill_attempt d step v sel) (\<lambda>e. io_return False) t = (Inr False, t1)"
    using assms by (rule catch_Inr)
  then show ?thesis by simp
qed

lemma fill_candidates_returns: "\<exists>b t1. fill_candidates d step v sels t = (Inr b, t1)"
proof (induction sels arbitrary: t)
  case Nil
  show ?case by auto
next
  case (Cons sel sels)
  obtain ok t1 where a:
    "io_catch (fill_attempt d step v sel) (\<lambda>e. io_return False) t = (Inr ok, t1)"
    using catch_returns[of "fill_attempt d step v sel" False t] by blast
  show ?case using a Cons.IH[of t1] by (cases ok) auto
qed

lemma fill_attempt_Inr:
  "fill_attempt d step v sel t = (Inr ok, t1) \<Longrightarrow>
   \<exists>cur. fill_type_and_read d step v sel t = (Inr cur, t1) \<and> ok = verified v cur"
  by (auto simp: fill_attempt_def io_bind_def io_return_def split: prod.splits sum.splits)

lemma fill_candidates_True:
  "fill_candidates d step v sels t = (Inr True, t2) \<Longrightarrow>
   \<exists>sel \<in> set sels. \<exists>s cur s1.
      fill_type_and_read d step v sel s = (Inr cur, s1) \<and> verified v cur"
proof (induction sels arbitrary: t)
  case Nil
  then show ?case by simp
next
  case (Cons sel sels)
  obtain r t1 where fa: "fill_attempt d step v sel t = (r, t1)"
    by (cases "fill_attempt d step v sel t")
  show ?case
  proof (cases r)
    case (Inl e)
    with fa Cons.prems have "fill_candidates d step v sels t1 = (Inr True, t2)"
      using fill_candidates_advance[of d step v sel t e t1 sels] by simp
    from Cons.IH[OF this] show ?thesis by auto
  next
    case (Inr ok)
    show ?thesis
    proof (cases ok)
      case True
      with Inr fa have "fill_attempt d step v sel t = (Inr True, t1)" by simp
      from fill_attempt_Inr[OF this] show ?thesis by auto
    next
      case False
      with Inr fa Cons.prems have "fill_candidates d step v sels t1 = (Inr True, t2)"
        using fill_candidates_False[of d step v sel t t1 sels] by simp
      from Cons.IH[OF this] show ?thesis by auto
    qed
  qed
qed

text \<open>
  A successful search, followed through the run: the candidates in front of the one
  that succeeds all fail, one after the other from the starting state, and the
  successful candidate is typed into and read back in the state they leave; its
  read-back ends in the final state of the search.
\<close>

lemma fill_candidates_hit:
  assumes "fill_attempt d step v sel t = (Inr True, t1)"
  shows "fill_candidates d step v (sel # sels) t = (Inr True, t1)"
proof -
  have "io_catch (fill_attempt d step v sel) (\<lambda>e. io_return False) t = (Inr True, t1)"
    using assms by (rule catch_Inr)
  then show ?thesis by simp
qed

lemma fill_candidates_True_run:
  "fill_candidates d step v sels t = (Inr True, t2) \<Longrightarrow>
   \<exists>pre sel post s cur.
      sels = pre @ sel # post \<and>
      fill_candidates d step v pre t = (Inr False, s) \<and>
      fill_type_and_read d step v sel s = (Inr cur, t2) \<and> verified v cur"
proof (induction sels arbitrary: t)
  case Nil
  then show ?case by simp
next
  case (Cons sel sels)
  obtain r t1 where fa: "fill_attempt d step v sel t = (r, t1)"
    by (cases "fill_attempt d step v sel t")
  have skip: "fill_candidates d step v (sel # xs) t = fill_candidates d step v xs t1"
    if "r \<noteq> Inr True" for xs
  proof (cases r)
    case (Inl e)
    with fa show ?thesis using fill_candidates_advance by simp
  next
    case (Inr ok)
    with that fa have "fill_attempt d step v sel t = (Inr False, t1)" by (cases ok) simp_all
    then show ?thesis by (rule fill_candidates_False)
  qed
  show ?case
  proof (cases "r = Inr True")
    case True
    with fa have hit: "fill_attempt d step v sel t = (Inr True, t1)" by simp
    from fill_candidates_hit[OF hit, of sels] Cons.prems have "t1 = t2" by simp
    with fill_attempt_Inr[OF hit] obtain cur where
      rd: "fill_type_and_read d step v sel t = (Inr cur, t2)" and vf: "verified v cur"
      by auto
    have "sel # sels = [] @ sel # sels \<and>
          fill_candidates d step v [] t = (Inr False, t) \<and>
          fill_type_and_read d step v sel t = (Inr cur, t2) \<and> verified v cur"
      using rd vf by simp
    then show ?thesis by blast
  next
    case False
    from skip[OF False, of sels] Cons.prems
    have "fill_candidates d step v sels t1 = (Inr True, t2)" by simp
    from Cons.IH[OF this] obtain pre sel' post s cur where
      sp: "sels = pre @ sel' # post"
      and pr: "fill_candidates d step v pre t1 = (Inr False, s)"
      and rd: "fill_type_and_read d step v sel' s = (Inr cur, t2)"
      and vf: "verified v cur"
      by blast
    have "sel # sels = (sel # pre) @ sel' # post \<and>
          fill_candidates d step v (sel # pre) t = (Inr False, s) \<and>
          fill_type_and_read d step v sel' s = (Inr cur, t2) \<and> verified v cur"
      using sp pr rd vf skip[OF False, of pre] by simp
    then show ?thesis by blast
  qed
qed

lemma fill_candidates_all_fail:
  "\<forall>sel \<in> set sels. \<forall>s. fst (fill_attempt d step v sel s) \<noteq> Inr True \<Longrightarrow>
   \<exists>t1. fill_candidates d step v sels t = (Inr False, t1)"
proof (induction sels arbitrary: t)
  case Nil
  show ?case by auto
next
  case (Cons sel sels)
  obtain r t1 where fa: "fill_attempt d step v sel t = (r, t1)"
    by (cases "fill_attempt d step v sel t")
  from Cons.prems have nt: "fst (fill_attempt d step v sel t) \<noteq> Inr True" by simp
  from Cons.prems have rest: "\<forall>sel \<in> set sels. \<forall>s. fst (fill_attempt d step v sel s) \<noteq> Inr True"
    by simp
  have "fill_candidates d step v (sel # sels) t = fill_candidates d step v sels t1"
  proof (cases r)
    case (Inl e)
    with fa show ?thesis using fill_candidates_advance by simp
  next
    case (Inr ok)
    with fa nt have "fill_attempt d step v sel t = (Inr False, t1)" by (cases ok) simp_all
    then show ?thesis by (rule fill_candidates_False)
  qed
  with Cons.IH[OF rest, of t1] show ?case by simp
qed

lemma read_back:
  "fill_type_and_read d step v sel t = (Inr cur, t1) \<Longrightarrow>
   \<exists>w w1. locator_input_value d sel w = (Inr cur, w1)"
  unfolding fill_type_and_read_def
  by (blast dest!: io_bind_InrD on_world_InrD)

lemma smart_fill_result:
  assumes "step_value step = Some v" "v \<noteq> []"
    and "fill_candidates d step v (get_smart_selectors t (target step) ''fill'') t = (Inr b, t1)"
  shows "smart_fill d step t = (Inr (if b then True else optional step), t1)"
  using assms
  by (simp add: smart_fill_def smart_fill_body_def io_catch_def io_bind_def io_return_def)

lemma smart_fill_no_value:
  "step_value step = None \<or> step_value step = Some [] \<Longrightarrow>
   smart_fill d step t = (Inr False, t)"
  by (auto simp: smart_fill_def smart_fill_body_def io_catch_def io_return_def)

lemma smart_fill_body_returns: "\<exists>b t1. smart_fill_body d step t = (Inr b, t1)"
proof (cases "step_value step")
  case None
  then show ?thesis by (auto simp: smart_fill_body_def io_return_def)
next
  case (Some v)
  obtain b t1 where
    "fill_candidates d step v (get_smart_selectors t (target step) ''fill'') t = (Inr b, t1)"
    using fill_candidates_returns by blast
  with Some show ?thesis by (auto simp: smart_fill_body_def io_bind_def io_return_def)
qed


subsection \<open>The stub pages\<close>

lemma no_keyboard_press_raises: "isl (fst (keyboard_press no_keyboard_driver key w))"
  by (simp add: no_keyboard_driver_def stub_driver_def io_raise_def)

lemma stub_text_click_raises: "isl (fst (get_by_text_click no_keyboard_driver tg ms w))"
  by (simp add: no_keyboard_driver_def stub_driver_def io_raise_def)

lemma stub_click_attempt_raises:
  "sel \<noteq> ''input[name='q']'' \<Longrightarrow>
   isl (fst (click_attempt no_keyboard_driver step sel s))"
  by (simp add: click_attempt_def io_bind_def on_world_def no_keyboard_driver_def stub_driver_def
        io_raise_def)

lemma submit_selectors:
  "\<forall>sel \<in> set (get_smart_selectors fresh_tool (target (submit_click_step opt)) ''click'').
     sel \<noteq> ''input[name='q']''"
  by (simp add: get_smart_selectors_def submit_click_step_def mk_step_def Let_def)

lemma rejecting_fill_attempt: "fst (fill_attempt rejecting_driver step v sel s) \<noteq> Inr True"
  by (simp add: fill_attempt_def fill_type_and_read_def io_bind_def on_world_def do_sleep_def
        rejecting_driver_def stub_driver_def io_raise_def io_return_def verified_def)

lemma rejecting_read_back:
  "locator_input_value rejecting_driver sel w = (Inr cur, w1) \<longrightarrow>
     \<not> sublist (py_lower ''Weather'') (py_lower cur)"
  by (auto simp: rejecting_driver_def io_return_def py_lower_def)

lemma stub_click_first:
  "click_attempt stub_driver (submit_click_step False) ''button#search-icon-legacy'' fresh_tool
     = (Inl TimeoutError, fresh_tool)"
  by (simp add: click_attempt_def io_bind_def on_world_def stub_driver_def io_raise_def
        fresh_tool_def new_tool_def)

lemma stub_fill_first:
  "fill_attempt stub_driver (search_fill_step False) ''Weather'' ''input[name='search_query']''
       fresh_tool
     = (Inl TimeoutError, fresh_tool)"
  by (simp add: fill_attempt_def fill_type_and_read_def io_bind_def on_world_def stub_driver_def
        io_raise_def fresh_tool_def new_tool_def)

lemma stub_fill_second:
  "fst (fill_candidates stub_driver (search_fill_step False) ''Weather'' [''input[name='q']'']
          fresh_tool) = Inr True"
  by code_simp

section \<open>The step executor: results\<close>

text \<open>
  Claim C2, as stated, fails for a Fill step that carries no value: \<open>_smart_fill\<close>
  returns \<open>False\<close> before any candidate is tried, also when the step is optional.
\<close>

theorem smart_fill_without_value:
  "fst (smart_fill rejecting_driver valueless_fill_step fresh_tool) = Inr False \<and>
   optional valueless_fill_step"
  by code_simp

text \<open>
  Claim C2, amended. When the Enter key (if the target asks for it), every selector
  candidate and the click by text all raise, \<open>_smart_click\<close> returns the optional flag
  of the step. When a Fill step has a non-empty value and no candidate gives a verified
  fill, \<open>_smart_fill\<close> returns the optional flag of the step. A Fill step whose value
  is \<open>None\<close> or empty makes \<open>_smart_fill\<close> return \<open>False\<close>, whatever its optional flag
  and whatever the page does.
\<close>

theorem exhausted_step_reports_optional:
  "((mentions_enter step \<longrightarrow> (\<forall>w. isl (fst (keyboard_press d ''Enter'' w)))) \<and>
    (\<forall>sel \<in> set (get_smart_selectors t (target step) ''click'').
        \<forall>s. isl (fst (click_attempt d step sel s))) \<and>
    (\<forall>tg w. target step = Some tg \<longrightarrow> isl (fst (get_by_text_click d tg 3000 w)))
    \<longrightarrow> fst (smart_click d step t) = Inr (optional step)) \<and>
   (step_value step = Some v \<and> v \<noteq> [] \<and>
    (\<forall>sel \<in> set (get_smart_selectors t (target step) ''fill'').
        \<forall>s. fst (fill_attempt d step v sel s) \<noteq> Inr True)
    \<longrightarrow> fst (smart_fill d step t) = Inr (optional step)) \<and>
   (step_value step = None \<or> step_value step = Some []
    \<longrightarrow> fst (smart_fill d step t) = Inr False)"
proof (intro conjI impI)
  assume "(mentions_enter step \<longrightarrow> (\<forall>w. isl (fst (keyboard_press d ''Enter'' w)))) \<and>
    (\<forall>sel \<in> set (get_smart_selectors t (target step) ''click'').
        \<forall>s. isl (fst (click_attempt d step sel s))) \<and>
    (\<forall>tg w. target step = Some tg \<longrightarrow> isl (fst (get_by_text_click d tg 3000 w)))"
  then show "fst (smart_click d step t) = Inr (optional step)"
    using smart_click_all_fail[of step d t] by blast
next
  assume h: "step_value step = Some v \<and> v \<noteq> [] \<and>
    (\<forall>sel \<in> set (get_smart_selectors t (target step) ''fill'').
        \<forall>s. fst (fill_attempt d step v sel s) \<noteq> Inr True)"
  then obtain t1 where
    "fill_candidates d step v (get_smart_selectors t (target step) ''fill'') t = (Inr False, t1)"
    using fill_candidates_all_fail[of "get_smart_selectors t (target step) ''fill''" d step v t]
    by blast
  with h have "smart_fill d step t = (Inr (if False then True else optional step), t1)"
    using smart_fill_result[of step v d t False t1] by blast
  then show "fst (smart_fill d step t) = Inr (optional step)" by simp
next
  assume "step_value step = None \<or> step_value step = Some []"
  then show "fst (smart_fill d step t) = Inr False"
    using smart_fill_no_value[of step d t] by simp
qed

text \<open>
  A page with no button and a keyboard that raises, and a text box that drops its
  input: the optional step reports \<open>True\<close>, the mandatory step \<open>False\<close>. An optional
  Fill step with no value reports \<open>False\<close> on the page whose text box works.
\<close>

theorem exhausted_step_reports_optional_witness:
  "mentions_enter (submit_click_step True) \<and>
   (\<forall>w. isl (fst (keyboard_press no_keyboard_driver ''Enter'' w))) \<and>
   \<not> (\<exists>sel \<in> set (get_smart_selectors fresh_tool (target (submit_click_step True)) ''click'').
        \<exists>s. \<not> isl (fst (click_attempt no_keyboard_driver (submit_click_step True) sel s))) \<and>
   fst (smart_click no_keyboard_driver (submit_click_step True) fresh_tool) = Inr True \<and>
   fst (smart_click no_keyboard_driver (submit_click_step False) fresh_tool) = Inr False \<and>
   step_value (search_fill_step True) = Some ''Weather'' \<and>
   \<not> (\<exists>sel \<in> set (get_smart_selectors fresh_tool (target (search_fill_step True)) ''fill'').
        \<exists>s. fst (fill_attempt rejecting_driver (search_fill_step True) ''Weather'' sel s)
              = Inr True) \<and>
   fst (smart_fill rejecting_driver (search_fill_step True) fresh_tool) = Inr True \<and>
   fst (smart_fill rejecting_driver (search_fill_step False) fresh_tool) = Inr False \<and>
   step_value valueless_fill_step = None \<and>
   optional valueless_fill_step \<and>
   fst (smart_fill stub_driver valueless_fill_step fresh_tool) = Inr False"
proof -
  have me: "mentions_enter (submit_click_step opt)" for opt
    by (simp add: mentions_enter_def submit_click_step_def mk_step_def py_lower_def lower_char_def)
  have kbd: "\<forall>w. isl (fst (keyboard_press no_keyboard_driver ''Enter'' w))"
    using no_keyboard_press_raises by blast
  have cl: "\<forall>sel \<in> set (get_smart_selectors fresh_tool (target (submit_click_step opt)) ''click'').
              \<forall>s. isl (fst (click_attempt no_keyboard_driver (submit_click_step opt) sel s))" for opt
    using submit_selectors[of opt] stub_click_attempt_raises by blast
  have tx: "\<forall>tg w. target (submit_click_step opt) = Some tg \<longrightarrow>
              isl (fst (get_by_text_click no_keyboard_driver tg 3000 w))" for opt
    using stub_text_click_raises by blast
  have sv: "step_value (search_fill_step opt) = Some ''Weather'' \<and> ''Weather'' \<noteq> []" for opt
    by (simp add: search_fill_step_def mk_step_def)
  have fl: "\<forall>sel \<in> set (get_smart_selectors fresh_tool (target (search_fill_step opt)) ''fill'').
              \<forall>s. fst (fill_attempt rejecting_driver (search_fill_step opt) ''Weather'' sel s)
                    \<noteq> Inr True" for opt
    using rejecting_fill_attempt by blast
  have o: "optional (submit_click_step opt) = opt \<and> optional (search_fill_step opt) = opt" for opt
    by (simp add: submit_click_step_def search_fill_step_def mk_step_def)
  have c1: "fst (smart_click no_keyboard_driver (submit_click_step True) fresh_tool) = Inr True"
    using exhausted_step_reports_optional[of "submit_click_step True" no_keyboard_driver
        fresh_tool "''Weather''"] me kbd cl tx o by simp
  have c2: "fst (smart_click no_keyboard_driver (submit_click_step False) fresh_tool) = Inr False"
    using exhausted_step_reports_optional[of "submit_click_step False" no_keyboard_driver
        fresh_tool "''Weather''"] me kbd cl tx o by simp
  have f1: "fst (smart_fill rejecting_driver (search_fill_step True) fresh_tool) = Inr True"
    using exhausted_step_reports_optional[of "search_fill_step True" rejecting_driver
        fresh_tool "''Weather''"] sv fl o by simp
  have f2: "fst (smart_fill rejecting_driver (search_fill_step False) fresh_tool) = Inr False"
    using exhausted_step_reports_optional[of "search_fill_step False" rejecting_driver
        fresh_tool "''Weather''"] sv fl o by simp
  have nv: "step_value valueless_fill_step = None \<and> optional valueless_fill_step"
    by (simp add: valueless_fill_step_def mk_step_def)
  have f3: "fst (smart_fill stub_driver valueless_fill_step fresh_tool) = Inr False"
    using exhausted_step_reports_optional[of valueless_fill_step stub_driver
        fresh_tool "''Weather''"] nv by simp
  show ?thesis using me kbd cl sv fl c1 c2 f1 f2 nv f3 by blast
qed

text \<open>
  Claim C3. For a Fill step that is not optional and has a non-empty value:
  when \<open>_smart_fill\<close> returns \<open>True\<close>, the candidates in front of some candidate all
  failed in this run, that candidate was then typed into, and its content, read back in
  the state in which the call ends, contains the value as a case-insensitive substring;
  and when no read-back of any element ever contains the value, \<open>_smart_fill\<close> returns
  \<open>False\<close>.
\<close>

theorem smart_fill_verified:
  assumes v: "step_value step = Some v" "v \<noteq> []" and opt: "\<not> optional step"
  shows "(smart_fill d step t = (Inr True, t2) \<longrightarrow>
            (\<exists>pre sel post s cur.
               get_smart_selectors t (target step) ''fill'' = pre @ sel # post \<and>
               fill_candidates d step v pre t = (Inr False, s) \<and>
               fill_type_and_read d step v sel s = (Inr cur, t2) \<and>
               sublist (py_lower v) (py_lower cur))) \<and>
         ((\<forall>sel w cur w1. locator_input_value d sel w = (Inr cur, w1) \<longrightarrow>
               \<not> sublist (py_lower v) (py_lower cur)) \<longrightarrow>
            fst (smart_fill d step t) = Inr False)"
proof -
  obtain b t1 where fc:
    "fill_candidates d step v (get_smart_selectors t (target step) ''fill'') t = (Inr b, t1)"
    using fill_candidates_returns by blast
  have res: "smart_fill d step t = (Inr b, t1)"
    using smart_fill_result[OF v fc] opt by simp
  have hit: "\<exists>pre sel post s cur.
               get_smart_selectors t (target step) ''fill'' = pre @ sel # post \<and>
               fill_candidates d step v pre t = (Inr False, s) \<and>
               fill_type_and_read d step v sel s = (Inr cur, t1) \<and>
               sublist (py_lower v) (py_lower cur)" if b
  proof -
    from that fc have "fill_candidates d step v (get_smart_selectors t (target step) ''fill'') t
                    = (Inr True, t1)" by simp
    from fill_candidates_True_run[OF this] show ?thesis by (auto simp: verified_def)
  qed
  have rej: "\<not> b"
    if r: "\<forall>sel w cur w1. locator_input_value d sel w = (Inr cur, w1) \<longrightarrow>
               \<not> sublist (py_lower v) (py_lower cur)"
  proof
    assume b
    from hit[OF this] obtain sel s cur where
      rd: "fill_type_and_read d step v sel s = (Inr cur, t1)"
      and sub: "sublist (py_lower v) (py_lower cur)" by blast
    from read_back[OF rd] obtain w w1 where "locator_input_value d sel w = (Inr cur, w1)"
      by blast
    with r sub show False by blast
  qed
  have first: "smart_fill d step t = (Inr True, t2) \<longrightarrow>
            (\<exists>pre sel post s cur.
               get_smart_selectors t (target step) ''fill'' = pre @ sel # post \<and>
               fill_candidates d step v pre t = (Inr False, s) \<and>
               fill_type_and_read d step v sel s = (Inr cur, t2) \<and>
               sublist (py_lower v) (py_lower cur))"
  proof
    assume "smart_fill d step t = (Inr True, t2)"
    with res have "b" and "t1 = t2" by simp_all
    with hit show "\<exists>pre sel post s cur.
               get_smart_selectors t (target step) ''fill'' = pre @ sel # post \<and>
               fill_candidates d step v pre t = (Inr False, s) \<and>
               fill_type_and_read d step v sel s = (Inr cur, t2) \<and>
               sublist (py_lower v) (py_lower cur)" by simp
  qed
  have second: "(\<forall>sel w cur w1. locator_input_value d sel w = (Inr cur, w1) \<longrightarrow>
               \<not> sublist (py_lower v) (py_lower cur)) \<longrightarrow>
            fst (smart_fill d step t) = Inr False"
    using res rej by auto
  show ?thesis by (intro conjI) (rule first, rule second)
qed

text \<open>
  The text box that accepts its input: the call ends with the value in the box, after
  the first candidate failed and the second was typed into and read back. The text box
  that drops its input gives failure.
\<close>

theorem smart_fill_verified_witness:
  "step_value (search_fill_step False) = Some ''Weather'' \<and>
   \<not> optional (search_fill_step False) \<and>
   smart_fill stub_driver (search_fill_step False) fresh_tool
     = (Inr True, fresh_tool\<lparr>world := ''Weather''\<rparr>) \<and>
   (\<exists>pre sel post s cur.
      get_smart_selectors fresh_tool (target (search_fill_step False)) ''fill''
        = pre @ sel # post \<and>
      fill_candidates stub_driver (search_fill_step False) ''Weather'' pre fresh_tool
        = (Inr False, s) \<and>
      fill_type_and_read stub_driver (search_fill_step False) ''Weather'' sel s
        = (Inr cur, fresh_tool\<lparr>world := ''Weather''\<rparr>) \<and>
      sublist (py_lower ''Weather'') (py_lower cur)) \<and>
   \<not> (\<exists>sel w cur w1. locator_input_value rejecting_driver sel w = (Inr cur, w1) \<and>
        sublist (py_lower ''Weather'') (py_lower cur)) \<and>
   fst (smart_fill rejecting_driver (search_fill_step False) fresh_tool) = Inr False"
proof -
  have sv: "step_value (search_fill_step False) = Some ''Weather''"
    by (simp add: search_fill_step_def mk_step_def)
  have ne: "''Weather'' \<noteq> []" by simp
  have o: "\<not> optional (search_fill_step False)"
    by (simp add: search_fill_step_def mk_step_def)
  have ok: "smart_fill stub_driver (search_fill_step False) fresh_tool
              = (Inr True, fresh_tool\<lparr>world := ''Weather''\<rparr>)"
    by code_simp
  have r: "\<forall>sel w cur w1. locator_input_value rejecting_driver sel w = (Inr cur, w1) \<longrightarrow>
             \<not> sublist (py_lower ''Weather'') (py_lower cur)"
    using rejecting_read_back by blast
  show ?thesis
    using smart_fill_verified[OF sv ne o, of stub_driver fresh_tool
        "fresh_tool\<lparr>world := ''Weather''\<rparr>"]
      smart_fill_verified[OF sv ne o, of rejecting_driver fresh_tool fresh_tool] sv o ok r
    by blast
qed

text \<open>
  Claim C4. \<open>_execute_step\<close> returns a truth value in every state, for every step and
  every behaviour of the page; so do the bodies of \<open>_smart_click\<close> and \<open>_smart_fill\<close>
  inside their outer handlers. A candidate whose attempt raises is skipped: the search
  goes on with the remaining candidates, in the state the attempt left.
\<close>

theorem execute_step_never_raises:
  "(\<exists>b t1. execute_step d step t = (Inr b, t1)) \<and>
   (\<exists>b t1. smart_click_body d step t = (Inr b, t1)) \<and>
   (\<exists>b t1. smart_fill_body d step t = (Inr b, t1)) \<and>
   (click_attempt d step sel t = (Inl e, t2) \<longrightarrow>
      click_candidates d step (sel # sels) t = click_candidates d step sels t2) \<and>
   (fill_attempt d step v sel t = (Inl e, t2) \<longrightarrow>
      fill_candidates d step v (sel # sels) t = fill_candidates d step v sels t2)"
proof -
  have a: "\<exists>b t1. execute_step d step t = (Inr b, t1)"
    unfolding execute_step_def by (rule catch_returns)
  have b: "\<exists>b t1. smart_click_body d step t = (Inr b, t1)"
    by (rule smart_click_body_returns)
  have c: "\<exists>b t1. smart_fill_body d step t = (Inr b, t1)"
    by (rule smart_fill_body_returns)
  have ca: "click_attempt d step sel t = (Inl e, t2) \<longrightarrow>
      click_candidates d step (sel # sels) t = click_candidates d step sels t2"
    using click_candidates_advance by blast
  have fa: "fill_attempt d step v sel t = (Inl e, t2) \<longrightarrow>
      fill_candidates d step v (sel # sels) t = fill_candidates d step v sels t2"
    using fill_candidates_advance by blast
  show ?thesis by (intro conjI) (rule a, rule b, rule c, rule ca, rule fa)
qed

text \<open>
  On the stub page the first click candidate and the first fill candidate raise a
  timeout; the search goes on, and the second fill candidate succeeds.
\<close>

theorem execute_step_never_raises_witness:
  "click_attempt stub_driver (submit_click_step False) ''button#search-icon-legacy'' fresh_tool
     = (Inl TimeoutError, fresh_tool) \<and>
   click_candidates stub_driver (submit_click_step False)
       [''button#search-icon-legacy'', ''button''] fresh_tool
     = click_candidates stub_driver (submit_click_step False) [''button''] fresh_tool \<and>
   fill_attempt stub_driver (search_fill_step False) ''Weather'' ''input[name='search_query']''
       fresh_tool
     = (Inl TimeoutError, fresh_tool) \<and>
   fill_candidates stub_driver (search_fill_step False) ''Weather''
       [''input[name='search_query']'', ''input[name='q']''] fresh_tool
     = fill_candidates stub_driver (search_fill_step False) ''Weather'' [''input[name='q']'']
         fresh_tool \<and>
   fst (fill_candidates stub_driver (search_fill_step False) ''Weather'' [''input[name='q']'']
          fresh_tool) = Inr True"
  using stub_click_first stub_fill_first stub_fill_second
    execute_step_never_raises[where d = stub_driver and step = "submit_click_step False" and t = fresh_tool
         and sel = "''button#search-icon-legacy''" and e = TimeoutError and ?t2.0 = fresh_tool
         and sels = "[''button'']" and v = "''Weather''"]
    execute_step_never_raises[where d = stub_driver and step = "search_fill_step False" and t = fresh_tool
         and sel = "''input[name='search_query']''" and e = TimeoutError and ?t2.0 = fresh_tool
         and sels = "[''input[name='q']'']" and v = "''Weather''"]
  by blast

text \<open>
  Claim C7. \<open>_navigate\<close> goes to the target itself when it starts with \<open>http\<close> and to
  \<open>https://\<close> followed by the target otherwise. It returns \<open>True\<close> exactly when
  \<open>page.goto\<close> on that URL returns a response whose status is below 400; it returns
  \<open>False\<close> when the call raises, gives no response or gives a status of 400 or more,
  and when the step has no target.
\<close>

theorem navigate_result:
  "navigate_url tg = (if prefix ''http'' tg then tg else ''https://'' @ tg) \<and>
   (target step = None \<longrightarrow> fst (navigate d step t) = Inr False) \<and>
   (target step = Some tg \<longrightarrow>
      fst (navigate d step t) =
        Inr (case fst (page_goto d (navigate_url tg) (world t)) of
               Inl e \<Rightarrow> False
             | Inr None \<Rightarrow> False
             | Inr (Some status) \<Rightarrow> status < 400))"
  by (auto simp: navigate_def navigate_body_def io_catch_def io_bind_def io_return_def
        io_raise_def on_world_def do_sleep_def navigate_url_def
      split: option.splits prod.splits sum.splits)


text \<open>
  A target without scheme on pages that answer 200, 404, nothing, or raise; and a step
  with no target.
\<close>

theorem navigate_result_witness:
  "navigate_url ''example.com'' = ''https://example.com'' \<and>
   navigate_url ''http://example.com'' = ''http://example.com'' \<and>
   target (navigate_step ''example.com'') = Some ''example.com'' \<and>
   fst (navigate stub_driver (navigate_step ''example.com'') fresh_tool) = Inr True \<and>
   fst (navigate not_found_driver (navigate_step ''example.com'') fresh_tool) = Inr False \<and>
   fst (navigate no_response_driver (navigate_step ''example.com'') fresh_tool) = Inr False \<and>
   fst (navigate unreachable_driver (navigate_step ''example.com'') fresh_tool) = Inr False \<and>
   target (mk_step NAVIGATE ''Navigate'') = None \<and>
   fst (navigate stub_driver (mk_step NAVIGATE ''Navigate'') fresh_tool) = Inr False"
proof -
  have tg: "target (navigate_step ''example.com'') = Some ''example.com''"
    by (simp add: navigate_step_def mk_step_def)
  have nt: "target (mk_step NAVIGATE ''Navigate'') = None"
    by (simp add: mk_step_def)
  have u: "navigate_url ''example.com'' = ''https://example.com''"
    by (simp add: navigate_url_def)
  have g1: "fst (page_goto stub_driver ''https://example.com'' (world fresh_tool)) = Inr (Some 200)"
    by (simp add: stub_driver_def io_return_def)
  have g2: "fst (page_goto not_found_driver ''https://example.com'' (world fresh_tool))
              = Inr (Some 404)"
    by (simp add: not_found_driver_def io_return_def)
  have g3: "fst (page_goto no_response_driver ''https://example.com'' (world fresh_tool))
              = Inr None"
    by (simp add: no_response_driver_def io_return_def)
  have g4: "fst (page_goto unreachable_driver ''https://example.com'' (world fresh_tool))
              = Inl TimeoutError"
    by (simp add: unreachable_driver_def io_raise_def)
  show ?thesis
    using tg nt u g1 g2 g3 g4
      navigate_result[of "''example.com''" "navigate_step ''example.com''" stub_driver fresh_tool]
      navigate_result[of "''example.com''" "navigate_step ''example.com''" not_found_driver fresh_tool]
      navigate_result[of "''example.com''" "navigate_step ''example.com''" no_response_driver fresh_tool]
      navigate_result[of "''example.com''" "navigate_step ''example.com''" unreachable_driver fresh_tool]
      navigate_result[of "''http://example.com''" "mk_step NAVIGATE ''Navigate''" stub_driver fresh_tool]
    by simp
qed

section \<open>The automation session: results\<close>

text \<open>
  On the stub browser, where no call raises, the four resources are closed once each,
  the page first.
\<close>

lemma teardown_closes_all_on_stub:
  "leaked (snd (execute_automation stub_driver ''Go to Google and search for weather'' []
                  fresh_tool)) = [] \<and>
   closed (snd (execute_automation stub_driver ''Go to Google and search for weather'' []
                  fresh_tool)) = [3, 2, 1, 0]"
  by code_simp

text \<open>
  Claim C1 at a failing input: a fresh tool, the instruction
  \<open>Go to Google and search for weather\<close>, and a browser whose \<open>page.close()\<close>
  raises. \<open>execute_automation\<close> returns normally, and the four resources it created
  (Playwright, browser, context, page) are all still open: the exception leaves the
  single \<open>try\<close> block of \<open>_cleanup_browser\<close> before the other three close calls.
\<close>

theorem teardown_leaks_when_page_close_raises:
  "leaked (snd (execute_automation close_fails_driver
                  ''Go to Google and search for weather'' [] fresh_tool)) = [0, 1, 2, 3] \<and>
   \<not> isl (fst (execute_automation close_fails_driver
                  ''Go to Google and search for weather'' [] fresh_tool))"
  by code_simp

end
